theory Spec2Isabelle
  imports Complex_Main "HOL-Library.Sublist"
begin

section \<open>JavaScript strings, arrays and regular expressions\<close>

text \<open>
  A JavaScript string is a sequence of UTF-16 code units. The model is \<^typ>\<open>string\<close>, a
  list of \<^typ>\<open>char\<close>: the code units below 256, each standing for the code point of the
  same number. All string constants of the module are ASCII.
\<close>

subsection \<open>\<open>String.prototype\<close>\<close>

text \<open>\<open>s.includes(c)\<close> for a one-character search string.\<close>

definition str_includes :: "string \<Rightarrow> char \<Rightarrow> bool" where
  "str_includes s c = (c \<in> set s)"

text \<open>
  \<open>s.split(sep)\<close> for a one-character separator: the pieces between the separators, in
  order. The result is never empty: a string without the separator, the empty string
  too, gives one piece.
\<close>

fun str_split :: "char \<Rightarrow> string \<Rightarrow> string list" where
  "str_split sep [] = [[]]"
| "str_split sep (c # cs) =
    (if c = sep then [] # str_split sep cs
     else (case str_split sep cs of
             [] \<Rightarrow> [[c]]
           | piece # pieces \<Rightarrow> (c # piece) # pieces))"

text \<open>\<open>xs[i]\<close> on an array: \<open>undefined\<close> past the end, which is \<open>None\<close> here.\<close>

definition at_index :: "'a list \<Rightarrow> nat \<Rightarrow> 'a option" where
  "at_index xs i = (if i < length xs then Some (xs ! i) else None)"

text \<open>
  \<open>s.toLowerCase()\<close>, code unit by code unit: the ASCII capitals and the capitals of the
  Latin-1 block (U+00C0 to U+00DE without the multiplication sign U+00D7) move up by 32;
  every other code unit below 256 stays.
\<close>

definition lower_char :: "char \<Rightarrow> char" where
  "lower_char c =
    (let n = (of_char c :: nat)
     in if (65 \<le> n \<and> n \<le> 90) \<or> (192 \<le> n \<and> n \<le> 222 \<and> n \<noteq> 215)
        then char_of (n + 32) else c)"

definition toLowerCase :: "string \<Rightarrow> string" where
  "toLowerCase s = map lower_char s"

text \<open>\<open>s.startsWith(p)\<close> is \<^const>\<open>prefix\<close> with the arguments swapped.\<close>

definition startsWith :: "string \<Rightarrow> string \<Rightarrow> bool" where
  "startsWith s p = prefix p s"

subsection \<open>Regular expressions\<close>

text \<open>
  The regular expression literals of the module use character classes, literal
  characters, sequencing, groups with \<open>?\<close>, \<open>*\<close> and \<open>+\<close>, and the bounded repetition
  \<open>{0,61}\<close>; every one of them is anchored with \<open>^\<close> and \<open>$\<close> and has no flag, so
  \<open>re.test(s)\<close> says whether the whole of \<open>s\<close> belongs to the language of the expression.
  \<open>Nothing\<close> (no string at all) is not written in any literal; derivatives need it.
\<close>

datatype class_item = Range char char | Single char

datatype regex =
    Nothing
  | Empty
  | CharClass "class_item list"
  | Seq regex regex
  | Or regex regex
  | Star regex
  | AtMost nat regex

text \<open>\<open>r?\<close> and \<open>r+\<close>.\<close>

definition Opt :: "regex \<Rightarrow> regex" where
  "Opt r = Or r Empty"

definition Plus :: "regex \<Rightarrow> regex" where
  "Plus r = Seq r (Star r)"

fun in_item :: "char \<Rightarrow> class_item \<Rightarrow> bool" where
  "in_item c (Range lo hi) = ((of_char lo :: nat) \<le> of_char c \<and> (of_char c :: nat) \<le> of_char hi)"
| "in_item c (Single d) = (c = d)"

definition in_class :: "char \<Rightarrow> class_item list \<Rightarrow> bool" where
  "in_class c items = list_ex (in_item c) items"

text \<open>The language of an expression.\<close>

definition conc :: "string set \<Rightarrow> string set \<Rightarrow> string set" where
  "conc A B = {u @ v | u v. u \<in> A \<and> v \<in> B}"

inductive_set star :: "string set \<Rightarrow> string set" for A :: "string set" where
  star_nil: "[] \<in> star A"
| star_step: "u \<in> A \<Longrightarrow> v \<in> star A \<Longrightarrow> u @ v \<in> star A"

fun at_most :: "nat \<Rightarrow> string set \<Rightarrow> string set" where
  "at_most 0 A = {[]}"
| "at_most (Suc n) A = {[]} \<union> conc A (at_most n A)"

fun lang :: "regex \<Rightarrow> string set" where
  "lang Nothing = {}"
| "lang Empty = {[]}"
| "lang (CharClass items) = {[c] | c. in_class c items}"
| "lang (Seq r s) = conc (lang r) (lang s)"
| "lang (Or r s) = lang r \<union> lang s"
| "lang (Star r) = star (lang r)"
| "lang (AtMost n r) = at_most n (lang r)"

text \<open>The matcher: Brzozowski derivatives, one per character of the subject.\<close>

fun nullable :: "regex \<Rightarrow> bool" where
  "nullable Nothing = False"
| "nullable Empty = True"
| "nullable (CharClass items) = False"
| "nullable (Seq r s) = (nullable r \<and> nullable s)"
| "nullable (Or r s) = (nullable r \<or> nullable s)"
| "nullable (Star r) = True"
| "nullable (AtMost n r) = True"

fun deriv :: "char \<Rightarrow> regex \<Rightarrow> regex" where
  "deriv c Nothing = Nothing"
| "deriv c Empty = Nothing"
| "deriv c (CharClass items) = (if in_class c items then Empty else Nothing)"
| "deriv c (Seq r s) =
    (if nullable r then Or (Seq (deriv c r) s) (deriv c s) else Seq (deriv c r) s)"
| "deriv c (Or r s) = Or (deriv c r) (deriv c s)"
| "deriv c (Star r) = Seq (deriv c r) (Star r)"
| "deriv c (AtMost n r) =
    (if n = 0 then Nothing else Seq (deriv c r) (AtMost (n - 1) r))"

fun derivs :: "string \<Rightarrow> regex \<Rightarrow> regex" where
  "derivs [] r = r"
| "derivs (c # cs) r = derivs cs (deriv c r)"

definition test :: "regex \<Rightarrow> string \<Rightarrow> bool" where
  "test r s = nullable (derivs s r)"

section \<open>The checks of \<open>lib/email-validation\<close>\<close>

text \<open>
  What a function of the module can throw: the \<open>ZodError\<close> of a failed \<open>parse\<close>, and the
  \<open>TypeError\<close> of a property read on \<open>undefined\<close>.
\<close>

datatype js_error = ZodError | TypeError

subsection \<open>The character classes of the regular expression literals\<close>

text \<open>
  \<open>[a-zA-Z0-9]\<close>, \<open>[a-zA-Z0-9-]\<close>, \<open>[a-zA-Z]\<close>, the class
  \<open>[a-zA-Z0-9.!#$%&'*+/=?^_`{|}~-]\<close> of the local part, and the literals \<open>\.\<close> and \<open>@\<close>.
\<close>

definition alnum :: regex where
  "alnum = CharClass [Range CHR ''a'' CHR ''z'', Range CHR ''A'' CHR ''Z'', Range CHR ''0'' CHR ''9'']"

definition alnum_hyphen :: regex where
  "alnum_hyphen = CharClass [Range CHR ''a'' CHR ''z'', Range CHR ''A'' CHR ''Z'',
                             Range CHR ''0'' CHR ''9'', Single CHR ''-'']"

definition alpha :: regex where
  "alpha = CharClass [Range CHR ''a'' CHR ''z'', Range CHR ''A'' CHR ''Z'']"

definition dot :: regex where
  "dot = CharClass [Single CHR ''.'']"

definition local_chars :: regex where
  "local_chars = CharClass
     [Range CHR ''a'' CHR ''z'', Range CHR ''A'' CHR ''Z'', Range CHR ''0'' CHR ''9'',
      Single CHR ''.'', Single CHR ''!'', Single CHR ''#'', Single CHR ''$'', Single CHR ''%'',
      Single CHR ''&'', Single CHR 0x27, Single CHR ''*'', Single CHR ''+'', Single CHR ''/'',
      Single CHR ''='', Single CHR ''?'', Single CHR ''^'', Single CHR ''_'', Single CHR ''`'',
      Single CHR ''{'', Single CHR ''|'', Single CHR ''}'', Single CHR ''~'', Single CHR ''-'']"

definition at_sign :: regex where
  "at_sign = CharClass [Single CHR ''@'']"

subsection \<open>Character sets and labels, as the specification words them\<close>

definition is_letter :: "char \<Rightarrow> bool" where
  "is_letter c = (c \<in> set ''abcdefghijklmnopqrstuvwxyzABCDEFGHIJKLMNOPQRSTUVWXYZ'')"

definition is_digit :: "char \<Rightarrow> bool" where
  "is_digit c = (c \<in> set ''0123456789'')"

definition is_local_char :: "char \<Rightarrow> bool" where
  "is_local_char c = (is_letter c \<or> is_digit c \<or> c \<in> set ''.!#$%&*+/=?^_`{|}~-'' \<or> c = CHR 0x27)"

text \<open>
  A label: 1 to 63 characters, each a letter, a digit or a hyphen, the first and the
  last not a hyphen.
\<close>

definition is_label :: "string \<Rightarrow> bool" where
  "is_label l =
    (1 \<le> length l \<and> length l \<le> 63
     \<and> list_all (\<lambda>c. is_letter c \<or> is_digit c \<or> c = CHR ''-'') l
     \<and> hd l \<noteq> CHR ''-'' \<and> last l \<noteq> CHR ''-'')"

subsection \<open>\<open>validateEmailSyntax\<close>\<close>

text \<open>
  Modelled from the spec: \<open>emailSchema\<close> is \<open>z.string().email(...)\<close> of the package
  \<open>zod\<close>, whose code is not part of the module. Section 4.1 of the specification gives
  the grammar that \<open>parse\<close> accepts: a local part of one or more characters out of
  letters, digits and \<open>.!#$%&'*+/=?^_`{|}~-\<close>, an \<open>@\<close>, and a domain of one or more
  labels separated by dots. Neither part can hold an \<open>@\<close>, so the string splits at
  \<open>@\<close> into exactly these two. \<open>parse\<close> returns its argument or throws. The same
  grammar is written out in the module as \<open>RFC5322_EMAIL_REGEX\<close>, below.
\<close>

definition emailSchema_parse :: "string \<Rightarrow> js_error + string" where
  "emailSchema_parse s =
    (case str_split CHR ''@'' s of
       [localPart, domainPart] \<Rightarrow>
         if localPart \<noteq> [] \<and> list_all is_local_char localPart
            \<and> list_all is_label (str_split CHR ''.'' domainPart)
         then Inr s else Inl ZodError
     | _ \<Rightarrow> Inl ZodError)"

text \<open>\<open>try { emailSchema.parse(email); return true; } catch { return false; }\<close>\<close>

definition validateEmailSyntax :: "string \<Rightarrow> bool" where
  "validateEmailSyntax email =
    (case emailSchema_parse email of Inr _ \<Rightarrow> True | Inl _ \<Rightarrow> False)"

subsection \<open>\<open>RFC5322_EMAIL_REGEX\<close>\<close>

text \<open>
  The module exports this expression and uses it nowhere:
  \<open>/^[a-zA-Z0-9.!#$%&'*+/=?^_`{|}~-]+@[a-zA-Z0-9](?:[a-zA-Z0-9-]{0,61}[a-zA-Z0-9])?(?:\.[a-zA-Z0-9](?:[a-zA-Z0-9-]{0,61}[a-zA-Z0-9])?)*$/\<close>.
  Its language is the grammar of section 4.1 (lemma \<open>validateEmailSyntax_RFC5322\<close>).
\<close>

definition RFC5322_EMAIL_REGEX :: regex where
  "RFC5322_EMAIL_REGEX =
    Seq (Plus local_chars)
   (Seq at_sign
   (Seq alnum
   (Seq (Opt (Seq (AtMost 61 alnum_hyphen) alnum))
        (Star (Seq dot (Seq alnum (Opt (Seq (AtMost 61 alnum_hyphen) alnum))))))))"

subsection \<open>\<open>validateDomain\<close>\<close>

text \<open>
  \<open>/^[a-zA-Z0-9]([a-zA-Z0-9-]{0,61}[a-zA-Z0-9])?(\.[a-zA-Z0-9]([a-zA-Z0-9-]{0,61}[a-zA-Z0-9])?)*$/\<close>
\<close>

definition domainRegex :: regex where
  "domainRegex =
    Seq alnum
   (Seq (Opt (Seq (AtMost 61 alnum_hyphen) alnum))
        (Star (Seq dot (Seq alnum (Opt (Seq (AtMost 61 alnum_hyphen) alnum))))))"

text \<open>
  The last statement reads \<open>parts[parts.length - 1]\<close> and then \<open>tld.length\<close>, which throws
  on \<open>undefined\<close>; \<open>/^[a-zA-Z]+$/\<close> is \<open>Plus alpha\<close>.
\<close>

definition validateDomain :: "string \<Rightarrow> js_error + bool" where
  "validateDomain email =
    (if \<not> str_includes email CHR ''@'' then Inr False
     else case at_index (str_split CHR ''@'' email) 1 of
       None \<Rightarrow> Inr False
     | Some domain \<Rightarrow>
         if domain = [] then Inr False
         else if \<not> test domainRegex domain then Inr False
         else
           let parts = str_split CHR ''.'' domain
           in (case at_index parts (length parts - 1) of
                 None \<Rightarrow> Inl TypeError
               | Some tld \<Rightarrow> Inr (length tld \<ge> 2 \<and> test (Plus alpha) tld)))"

subsection \<open>\<open>isDisposableEmail\<close>\<close>

definition disposableDomains :: "string list" where
  "disposableDomains =
    [''10minutemail.com'', ''guerrillamail.com'', ''mailinator.com'', ''tempmail.org'',
     ''throwaway.email'', ''temp-mail.org'', ''yopmail.com'', ''maildrop.cc'',
     ''sharklasers.com'', ''guerrillamailblock.com'', ''pokemail.net'', ''spam4.me'',
     ''tempail.com'', ''tempmailaddress.com'', ''emailondeck.com'', ''mohmal.com'',
     ''mytrashmail.com'', ''mailnesia.com'', ''trashmail.com'', ''dispostable.com'']"

text \<open>
  \<open>email.split('@')[1]?.toLowerCase()\<close> is \<open>undefined\<close> when there is no second piece;
  \<open>!domain\<close> holds for \<open>undefined\<close> and for the empty string.
\<close>

definition isDisposableEmail :: "string \<Rightarrow> bool" where
  "isDisposableEmail email =
    (case map_option toLowerCase (at_index (str_split CHR ''@'' email) 1) of
       None \<Rightarrow> False
     | Some domain \<Rightarrow>
         if domain = [] then False else domain \<in> set disposableDomains)"

subsection \<open>\<open>isRoleBasedEmail\<close>\<close>

definition roleBasedPrefixes :: "string list" where
  "roleBasedPrefixes =
    [''admin'', ''administrator'', ''info'', ''support'', ''sales'', ''contact'', ''help'',
     ''noreply'', ''no-reply'', ''webmaster'', ''postmaster'', ''hostmaster'', ''abuse'',
     ''security'', ''privacy'', ''legal'', ''billing'', ''accounts'', ''marketing'',
     ''hr'', ''careers'', ''jobs'', ''recruitment'', ''press'', ''media'', ''news'']"

definition isRoleBasedEmail :: "string \<Rightarrow> bool" where
  "isRoleBasedEmail email =
    (case map_option toLowerCase (at_index (str_split CHR ''@'' email) 0) of
       None \<Rightarrow> False
     | Some localPart \<Rightarrow>
         if localPart = [] then False
         else list_ex (\<lambda>p. localPart = p \<or> startsWith localPart (p @ ''.'')
                              \<or> startsWith localPart (p @ ''-''))
                roleBasedPrefixes)"

subsection \<open>The simulated probes\<close>

text \<open>
  The probes call \<open>Math.random()\<close>. The numbers it will return are a sequence fixed in
  advance, \<open>randoms\<close>, of which \<open>drawn\<close> have been used. \<open>entered\<close> lists, oldest first,
  the functions of the module that \<open>validateEmail\<close> has called; it is a record of the
  run, read by no function.
\<close>

datatype check =
    ValidateEmailSyntax | ValidateDomain | IsDisposableEmail | IsRoleBasedEmail
  | SimulateMXCheck | SimulateCatchAllDetection | SimulateSMTPCheck

record world =
  randoms :: "nat \<Rightarrow> real"
  drawn :: nat
  entered :: "check list"

definition Math_random :: "world \<Rightarrow> real \<times> world" where
  "Math_random w = (randoms w (drawn w), w\<lparr>drawn := drawn w + 1\<rparr>)"

definition enter :: "check \<Rightarrow> world \<Rightarrow> world" where
  "enter f w = w\<lparr>entered := entered w @ [f]\<rparr>"

text \<open>
  \<open>simulateMXCheck\<close> and \<open>simulateCatchAllDetection\<close> declare a string parameter and
  read \<open>domain.toLowerCase()\<close>; their caller passes \<open>email.split('@')[1]\<close>, which can be
  \<open>undefined\<close>, and then the read throws.
\<close>

definition simulateMXCheck :: "string option \<Rightarrow> world \<Rightarrow> (js_error + bool) \<times> world" where
  "simulateMXCheck domain w0 =
    (let w = enter SimulateMXCheck w0;
         commonDomains =
           [''gmail.com'', ''yahoo.com'', ''hotmail.com'', ''outlook.com'', ''aol.com'',
            ''icloud.com'', ''protonmail.com'', ''zoho.com'', ''mail.com'', ''gmx.com'']
     in case domain of
          None \<Rightarrow> (Inl TypeError, w)
        | Some d \<Rightarrow>
            if toLowerCase d \<in> set commonDomains then (Inr True, w)
            else (let (r, w') = Math_random w in (Inr (r > 0.15), w')))"

definition simulateCatchAllDetection :: "string option \<Rightarrow> world \<Rightarrow> (js_error + bool) \<times> world" where
  "simulateCatchAllDetection domain w0 =
    (let w = enter SimulateCatchAllDetection w0;
         catchAllDomains = [''example.com'', ''test.com'', ''demo.com'']
     in case domain of
          None \<Rightarrow> (Inl TypeError, w)
        | Some d \<Rightarrow>
            if toLowerCase d \<in> set catchAllDomains then (Inr True, w)
            else (let (r, w') = Math_random w in (Inr (r < 0.2), w')))"

definition simulateSMTPCheck :: "string \<Rightarrow> world \<Rightarrow> bool \<times> world" where
  "simulateSMTPCheck email w0 =
    (let w = enter SimulateSMTPCheck w0
     in case map_option toLowerCase (at_index (str_split CHR ''@'' email) 1) of
          None \<Rightarrow> (False, w)
        | Some domain \<Rightarrow>
            if domain = [] then (False, w)
            else
              let reliableProviders =
                    [''gmail.com'', ''yahoo.com'', ''hotmail.com'', ''outlook.com'', ''aol.com'',
                     ''icloud.com'', ''protonmail.com'', ''zoho.com'']
              in if domain \<in> set reliableProviders
                 then (let (r, w') = Math_random w in (r > 0.05, w'))
                 else (let (r, w') = Math_random w in (r > 0.3, w')))"

section \<open>The scoring engine\<close>

subsection \<open>Signals, weights and results\<close>

text \<open>
  The object type \<open>{syntax, domain, mx, disposable, roleBased, catchAll, smtp}\<close> occurs
  twice in the source: with boolean fields as the argument of \<open>calculateEmailScore\<close> and
  with number fields as its local constant \<open>weights\<close>. The field \<open>syntax\<close> is written
  \<open>syntax'\<close> here, because \<open>syntax\<close> is a keyword of the theory language.
\<close>

record 'a signals =
  syntax' :: 'a
  domain :: 'a
  mx :: 'a
  disposable :: 'a
  roleBased :: 'a
  catchAll :: 'a
  smtp :: 'a

definition weights :: "int signals" where
  "weights = \<lparr>syntax' = 20, domain = 15, mx = 15, disposable = - 10,
              roleBased = - 5, catchAll = - 5, smtp = 25\<rparr>"

text \<open>
  \<open>calculateEmailScore\<close>. The running \<open>score\<close> is an integer; the quotient
  \<open>score / maxPossibleScore * 100\<close> is taken in the reals, \<open>Math.max\<close> and \<open>Math.min\<close>
  are \<open>max\<close> and \<open>min\<close>, and \<open>Math.round\<close> (nearest integer, a tie going up) is
  \<open>round\<close>, which is \<open>\<lambda>x. \<lfloor>x + 1/2\<rfloor>\<close>.
\<close>

definition calculateEmailScore :: "bool signals \<Rightarrow> int" where
  "calculateEmailScore validationResults =
    (let score = 0;
         score = (if syntax' validationResults then score + syntax' weights else score);
         score = (if domain validationResults then score + domain weights else score);
         score = (if mx validationResults then score + mx weights else score);
         score = (if disposable validationResults then score + disposable weights else score);
         score = (if roleBased validationResults then score + roleBased weights else score);
         score = (if catchAll validationResults then score + catchAll weights else score);
         score = (if smtp validationResults then score + smtp weights else score);
         maxPossibleScore = syntax' weights + domain weights + mx weights + smtp weights;
         normalizedScore =
           max 0 (min 100 ((real_of_int score / real_of_int maxPossibleScore) * 100))
     in round normalizedScore)"

text \<open>\<open>getEmailStatus\<close>: two thresholds, tested from the top.\<close>

datatype emailStatus = Valid | Risky | Invalid

definition getEmailStatus :: "int \<Rightarrow> emailStatus" where
  "getEmailStatus score =
    (if score \<ge> 75 then Valid else if score \<ge> 40 then Risky else Invalid)"

section \<open>The orchestrator\<close>

text \<open>The object that \<open>validateEmail\<close> returns: the seven signals, the address, score and status.\<close>

record validationResult = "bool signals" +
  email :: string
  score :: int
  status :: emailStatus

text \<open>
  \<open>validateEmail\<close> is an \<open>async\<close> function: it returns a promise that is fulfilled with
  the result (\<open>Inr\<close>) or rejected with what was thrown (\<open>Inl\<close>). The object
  \<open>{email, ...validationResults, score, status}\<close> is \<open>validationResults\<close> extended by the
  three other fields.
\<close>

definition validateEmail :: "string \<Rightarrow> world \<Rightarrow> (js_error + validationResult) \<times> world" where
  "validateEmail = (\<lambda>email w.
    let w = enter ValidateEmailSyntax w;
        syntax = validateEmailSyntax email
    in if \<not> syntax then
         (Inr \<lparr>syntax' = False, domain = False, mx = False, disposable = False,
               roleBased = False, catchAll = False, smtp = False,
               email = email, score = 0, status = Invalid\<rparr>, w)
       else
         let domain = at_index (str_split CHR ''@'' email) 1;
             w = enter ValidateDomain w
         in (case validateDomain email of
               Inl err \<Rightarrow> (Inl err, w)
             | Inr domainValid \<Rightarrow>
         (case (if domainValid then simulateMXCheck domain w else (Inr False, w)) of
               (Inl err, w) \<Rightarrow> (Inl err, w)
             | (Inr b, w) \<Rightarrow>
         let mx = b;
             w = enter IsDisposableEmail w;
             disposable = isDisposableEmail email;
             w = enter IsRoleBasedEmail w;
             roleBased = isRoleBasedEmail email
         in (case (if domainValid then simulateCatchAllDetection domain w
                   else (Inr False, w)) of
               (Inl err, w) \<Rightarrow> (Inl err, w)
             | (Inr b, w) \<Rightarrow>
         let catchAll = b;
             (smtp, w) = (if mx \<and> \<not> disposable then simulateSMTPCheck email w
                          else (False, w));
             validationResults =
               \<lparr>syntax' = syntax, domain = domainValid, mx = mx, disposable = disposable,
                roleBased = roleBased, catchAll = catchAll, smtp = smtp\<rparr>;
             score = calculateEmailScore validationResults;
             status = getEmailStatus score
         in (Inr (signals.extend validationResults
                    (validationResult.fields email score status)), w)))))"

section \<open>The specification's wording\<close>

text \<open>
  Section 4.6: the sum of the weights of the signals that are true, clamped to
  \<open>[0, 75]\<close>, divided by 75, times 100, rounded.
\<close>

definition spec_raw_sum :: "bool signals \<Rightarrow> int" where
  "spec_raw_sum r =
    sum_list (map fst (filter snd
      [(20, syntax' r), (15, domain r), (15, mx r), (- 10, disposable r),
       (- 5, roleBased r), (- 5, catchAll r), (25, smtp r)]))"

definition clamp :: "real \<Rightarrow> real \<Rightarrow> real \<Rightarrow> real" where
  "clamp x lo hi = (if x < lo then lo else if hi < x then hi else x)"

definition spec_score :: "bool signals \<Rightarrow> int" where
  "spec_score r = round (clamp (real_of_int (spec_raw_sum r)) 0 75 / 75 * 100)"

text \<open>Section 4.4: the local part is the substring before the first \<open>@\<close>.\<close>

definition local_part :: "string \<Rightarrow> string" where
  "local_part e = takeWhile (\<lambda>c. c \<noteq> CHR ''@'') e"

text \<open>
  The domain that the checks read is \<open>email.split('@')[1]\<close>: the piece between the first
  \<open>@\<close> and the next one, or the end of the string. The specification speaks of the
  substring after the first \<open>@\<close> (section 4.2) and after the last \<open>@\<close> (section 4.3).
\<close>

definition domain_piece :: "string \<Rightarrow> string option" where
  "domain_piece e =
    (if CHR ''@'' \<in> set e
     then Some (takeWhile (\<lambda>c. c \<noteq> CHR ''@'') (tl (dropWhile (\<lambda>c. c \<noteq> CHR ''@'') e)))
     else None)"

definition after_first_at :: "string \<Rightarrow> string option" where
  "after_first_at e =
    (if CHR ''@'' \<in> set e then Some (tl (dropWhile (\<lambda>c. c \<noteq> CHR ''@'') e)) else None)"

definition after_last_at :: "string \<Rightarrow> string option" where
  "after_last_at e =
    (if CHR ''@'' \<in> set e then Some (rev (takeWhile (\<lambda>c. c \<noteq> CHR ''@'') (rev e))) else None)"

text \<open>Section 4.3: membership in the deny-list without regard to case.\<close>

definition listed_disposable :: "string \<Rightarrow> bool" where
  "listed_disposable d = (toLowerCase d \<in> set (map toLowerCase disposableDomains))"

text \<open>
  Section 4.2: the domain is made of labels separated by dots, and its last label has at
  least two characters, all of them letters.
\<close>

definition spec_domain_ok :: "string \<Rightarrow> bool" where
  "spec_domain_ok d =
    (list_all is_label (str_split CHR ''.'' d)
     \<and> (let tld = last (str_split CHR ''.'' d) in 2 \<le> length tld \<and> list_all is_letter tld))"

text \<open>
  For the proofs: the one-character strings over a set of characters, and the expression
  of one label, which \<open>domainRegex\<close> repeats.
\<close>

definition chars_of :: "(char \<Rightarrow> bool) \<Rightarrow> string set" where
  "chars_of P = {[c] | c. P c}"

definition label_regex :: regex where
  "label_regex = Seq alnum (Opt (Seq (AtMost 61 alnum_hyphen) alnum))"

section \<open>Scoring and classification\<close>

lemma raw_sum_chain:
  "(let score = 0;
        score = (if syntax' r then score + syntax' weights else score);
        score = (if domain r then score + domain weights else score);
        score = (if mx r then score + mx weights else score);
        score = (if disposable r then score + disposable weights else score);
        score = (if roleBased r then score + roleBased weights else score);
        score = (if catchAll r then score + catchAll weights else score);
        score = (if smtp r then score + smtp weights else score)
    in f score) = f (spec_raw_sum r)"
  by (simp add: weights_def spec_raw_sum_def)

lemma score_of_raw_sum:
  "calculateEmailScore r = round (max 0 (min 100 (real_of_int (spec_raw_sum r) / 75 * 100)))"
  unfolding calculateEmailScore_def
  by (simp only: raw_sum_chain) (simp add: weights_def)

lemma clamp_scaled:
  "max 0 (min 100 (x / 75 * 100)) = clamp x 0 75 / 75 * (100::real)"
  by (simp add: clamp_def max_def min_def)

lemma normalize_mono:
  assumes "a \<le> b"
  shows "round (max 0 (min 100 (real_of_int a / 75 * 100)))
       \<le> round (max 0 (min 100 (real_of_int b / 75 * 100)))"
proof -
  from assms have "real_of_int a / 75 * 100 \<le> real_of_int b / 75 * 100"
    by simp
  then have "max 0 (min 100 (real_of_int a / 75 * 100))
           \<le> max 0 (min 100 (real_of_int b / 75 * 100))"
    by (simp add: max_def min_def)
  then show ?thesis
    by (rule round_mono)
qed

text \<open>
  JavaScript computes \<open>(score / maxPossibleScore) * 100\<close> in binary floating point, so
  the product can differ from the exact value by a rounding error, which is far below
  \<open>1/10\<close> here. The exact value is a multiple of \<open>1/3\<close>, hence never closer than \<open>1/6\<close>
  to a point where \<open>Math.round\<close> switches, and 0 and 100, where the clamping sets in, are
  integers: an error of up to \<open>1/10\<close> does not change the score.
\<close>

lemma round_near:
  assumes "real_of_int n - 9 / 20 \<le> x" and "x \<le> real_of_int n + 9 / 20"
  shows "round x = n"
proof (rule round_unique)
  show "x - 1 / 2 < real_of_int n" using assms by linarith
  show "real_of_int n \<le> x + 1 / 2" using assms by linarith
qed

lemma nearest_third:
  fixes S :: int
  shows "\<exists>n. real_of_int n - 1 / 3 \<le> real_of_int S / 75 * 100
           \<and> real_of_int S / 75 * 100 \<le> real_of_int n + 1 / 3"
proof -
  define q where "q = (4 * S) div 3"
  define r where "r = (4 * S) mod 3"
  define x where "x = real_of_int S / 75 * 100"
  have "4 * S = 3 * q + r" and r: "r = 0 \<or> r = 1 \<or> r = 2"
    unfolding q_def r_def by presburger+
  then have "real_of_int (4 * S) = real_of_int (3 * q + r)"
    by simp
  then have x: "3 * x = 3 * real_of_int q + real_of_int r"
    unfolding x_def by simp
  from r have "(real_of_int q - 1 / 3 \<le> x \<and> x \<le> real_of_int q + 1 / 3)
      \<or> (real_of_int (q + 1) - 1 / 3 \<le> x \<and> x \<le> real_of_int (q + 1) + 1 / 3)"
  proof (elim disjE)
    assume "r = 0"
    with x show ?thesis by simp
  next
    assume "r = 1"
    with x show ?thesis by simp
  next
    assume "r = 2"
    with x show ?thesis by simp
  qed
  then show ?thesis
    unfolding x_def by blast
qed

lemma rounding_error_irrelevant:
  fixes S :: int and err :: real
  assumes err: "\<bar>err\<bar> \<le> 1 / 10"
  shows "round (max 0 (min 100 (real_of_int S / 75 * 100 + err)))
       = round (max 0 (min 100 (real_of_int S / 75 * 100)))"
proof -
  define x where "x = real_of_int S / 75 * 100"
  have goal: "round (max 0 (min 100 (x + err))) = round (max 0 (min 100 x))"
  proof -
    consider "S \<le> 0" | "75 \<le> S" | "1 \<le> S" "S \<le> 74"
      by linarith
    then show ?thesis
    proof cases
      case 1
      then have "x \<le> 0"
        unfolding x_def by simp
      with err have "real_of_int 0 - 9 / 20 \<le> max 0 (min 100 (x + err))"
        and "max 0 (min 100 (x + err)) \<le> real_of_int 0 + 9 / 20"
        and "max 0 (min 100 x) = real_of_int 0"
        by (auto simp: max_def min_def)
      then show ?thesis
        using round_near [of 0 "max 0 (min 100 (x + err))"] by (simp only: round_of_int)
    next
      case 2
      then have "100 \<le> x"
        unfolding x_def by simp
      with err have "real_of_int 100 - 9 / 20 \<le> max 0 (min 100 (x + err))"
        and "max 0 (min 100 (x + err)) \<le> real_of_int 100 + 9 / 20"
        and "max 0 (min 100 x) = real_of_int 100"
        by (auto simp: max_def min_def)
      then show ?thesis
        using round_near [of 100 "max 0 (min 100 (x + err))"] by (simp only: round_of_int)
    next
      case 3
      then have "real_of_int 1 \<le> real_of_int S" "real_of_int S \<le> real_of_int 74"
        by (simp_all only: of_int_le_iff)
      then have "4 / 3 \<le> x" and "x \<le> 296 / 3"
        unfolding x_def by simp_all
      with err have unclamped: "max 0 (min 100 (x + err)) = x + err" "max 0 (min 100 x) = x"
        by (auto simp: max_def min_def)
      obtain n where n: "real_of_int n - 1 / 3 \<le> x" "x \<le> real_of_int n + 1 / 3"
        using nearest_third [of S] unfolding x_def by blast
      have "round (x + err) = n"
        using n err by (intro round_near) linarith+
      moreover have "round x = n"
        using n by (intro round_near) linarith+
      ultimately show ?thesis
        using unclamped by simp
    qed
  qed
  then show ?thesis
    unfolding x_def .
qed

lemma calculateEmailScore_error_tolerant:
  assumes "\<bar>err\<bar> \<le> 1 / 10"
  shows "round (max 0 (min 100 (real_of_int (spec_raw_sum r) / 75 * 100 + err)))
       = calculateEmailScore r"
  using rounding_error_irrelevant [OF assms] by (simp only: score_of_raw_sum)

lemma spec_raw_sum_literal:
  "spec_raw_sum \<lparr>syntax' = a, domain = b, mx = c, disposable = d,
                  roleBased = e, catchAll = f, smtp = g\<rparr>
   = (if a then 20 else 0) + (if b then 15 else 0) + (if c then 15 else 0)
     + (if d then - 10 else 0) + (if e then - 5 else 0) + (if f then - 5 else 0)
     + (if g then 25 else 0)"
  by (simp add: spec_raw_sum_def)

text \<open>
  C2. For every record of the seven signals, \<open>calculateEmailScore\<close> returns
  \<open>round (clamp S 0 75 / 75 * 100)\<close>, where \<open>S\<close> is the sum of the weights of the signals
  that are true; with only \<open>syntax\<close> true the score is 27, and with \<open>syntax\<close>, \<open>domain\<close>,
  \<open>mx\<close> and \<open>smtp\<close> true and the three negative signals false it is 100.
\<close>

theorem calculateEmailScore_refines_spec:
  "calculateEmailScore r = spec_score r
   \<and> calculateEmailScore \<lparr>syntax' = True, domain = False, mx = False, disposable = False,
                           roleBased = False, catchAll = False, smtp = False\<rparr> = 27
   \<and> calculateEmailScore \<lparr>syntax' = True, domain = True, mx = True, disposable = False,
                           roleBased = False, catchAll = False, smtp = True\<rparr> = 100"
proof (intro conjI)
  show "calculateEmailScore r = spec_score r"
    by (simp only: score_of_raw_sum clamp_scaled spec_score_def)
  show "calculateEmailScore \<lparr>syntax' = True, domain = False, mx = False, disposable = False,
                           roleBased = False, catchAll = False, smtp = False\<rparr> = 27"
    by (simp add: score_of_raw_sum spec_raw_sum_literal round_def)
  show "calculateEmailScore \<lparr>syntax' = True, domain = True, mx = True, disposable = False,
                           roleBased = False, catchAll = False, smtp = True\<rparr> = 100"
    by (simp add: score_of_raw_sum spec_raw_sum_literal)
qed

lemma spec_raw_sum_updates:
  "spec_raw_sum (r\<lparr>syntax' := False\<rparr>) \<le> spec_raw_sum (r\<lparr>syntax' := True\<rparr>)"
  "spec_raw_sum (r\<lparr>domain := False\<rparr>) \<le> spec_raw_sum (r\<lparr>domain := True\<rparr>)"
  "spec_raw_sum (r\<lparr>mx := False\<rparr>) \<le> spec_raw_sum (r\<lparr>mx := True\<rparr>)"
  "spec_raw_sum (r\<lparr>smtp := False\<rparr>) \<le> spec_raw_sum (r\<lparr>smtp := True\<rparr>)"
  "spec_raw_sum (r\<lparr>disposable := True\<rparr>) \<le> spec_raw_sum (r\<lparr>disposable := False\<rparr>)"
  "spec_raw_sum (r\<lparr>roleBased := True\<rparr>) \<le> spec_raw_sum (r\<lparr>roleBased := False\<rparr>)"
  "spec_raw_sum (r\<lparr>catchAll := True\<rparr>) \<le> spec_raw_sum (r\<lparr>catchAll := False\<rparr>)"
  by (simp_all add: spec_raw_sum_def)

text \<open>
  C10. The score is monotone in each signal: with the other six signals fixed, turning
  \<open>syntax\<close>, \<open>domain\<close>, \<open>mx\<close> or \<open>smtp\<close> from false to true never lowers it, and turning
  \<open>disposable\<close>, \<open>roleBased\<close> or \<open>catchAll\<close> from false to true never raises it.
\<close>

theorem calculateEmailScore_monotone:
  "calculateEmailScore (r\<lparr>syntax' := False\<rparr>) \<le> calculateEmailScore (r\<lparr>syntax' := True\<rparr>)
   \<and> calculateEmailScore (r\<lparr>domain := False\<rparr>) \<le> calculateEmailScore (r\<lparr>domain := True\<rparr>)
   \<and> calculateEmailScore (r\<lparr>mx := False\<rparr>) \<le> calculateEmailScore (r\<lparr>mx := True\<rparr>)
   \<and> calculateEmailScore (r\<lparr>smtp := False\<rparr>) \<le> calculateEmailScore (r\<lparr>smtp := True\<rparr>)
   \<and> calculateEmailScore (r\<lparr>disposable := True\<rparr>) \<le> calculateEmailScore (r\<lparr>disposable := False\<rparr>)
   \<and> calculateEmailScore (r\<lparr>roleBased := True\<rparr>) \<le> calculateEmailScore (r\<lparr>roleBased := False\<rparr>)
   \<and> calculateEmailScore (r\<lparr>catchAll := True\<rparr>) \<le> calculateEmailScore (r\<lparr>catchAll := False\<rparr>)"
  unfolding score_of_raw_sum
  by (intro conjI normalize_mono spec_raw_sum_updates)

text \<open>
  C4. \<open>getEmailStatus\<close> gives every integer score exactly one status: \<open>Valid\<close> from 75 up,
  \<open>Risky\<close> from 40 to 74, \<open>Invalid\<close> below 40; so 75 is valid, 74 and 40 are risky and 39
  is invalid.
\<close>

theorem getEmailStatus_thresholds:
  "(getEmailStatus s = Valid \<longleftrightarrow> s \<ge> 75)
   \<and> (getEmailStatus s = Risky \<longleftrightarrow> 40 \<le> s \<and> s < 75)
   \<and> (getEmailStatus s = Invalid \<longleftrightarrow> s < 40)
   \<and> getEmailStatus 75 = Valid \<and> getEmailStatus 74 = Risky
   \<and> getEmailStatus 40 = Risky \<and> getEmailStatus 39 = Invalid"
  by (simp add: getEmailStatus_def)

section \<open>Splitting a string\<close>

lemma str_split_not_Nil: "str_split sep s \<noteq> []"
  by (induction s) (auto split: list.splits)

lemma str_split_no_sep: "sep \<notin> set s \<Longrightarrow> str_split sep s = [s]"
  by (induction s) auto

lemma str_split_append_sep:
  "sep \<notin> set u \<Longrightarrow> str_split sep (u @ sep # v) = u # str_split sep v"
  by (induction u) auto

lemma split_at_first:
  "sep \<in> set s \<Longrightarrow>
   s = takeWhile (\<lambda>c. c \<noteq> sep) s @ sep # tl (dropWhile (\<lambda>c. c \<noteq> sep) s)"
  by (induction s) auto

lemma str_split_first:
  "at_index (str_split sep s) 0 = Some (takeWhile (\<lambda>c. c \<noteq> sep) s)"
  by (induction s) (auto simp: at_index_def split: list.splits)

lemma takeWhile_no_sep: "sep \<notin> set (takeWhile (\<lambda>c. c \<noteq> sep) s)"
  by (induction s) auto

lemma str_split_second:
  "at_index (str_split sep s) 1 =
    (if sep \<in> set s
     then Some (takeWhile (\<lambda>c. c \<noteq> sep) (tl (dropWhile (\<lambda>c. c \<noteq> sep) s)))
     else None)"
proof (cases "sep \<in> set s")
  case False
  then show ?thesis
    by (simp add: str_split_no_sep at_index_def)
next
  case True
  let ?u = "takeWhile (\<lambda>c. c \<noteq> sep) s"
  let ?v = "tl (dropWhile (\<lambda>c. c \<noteq> sep) s)"
  have "str_split sep s = str_split sep (?u @ sep # ?v)"
    using split_at_first [OF True] by simp
  also have "\<dots> = ?u # str_split sep ?v"
    by (rule str_split_append_sep) (rule takeWhile_no_sep)
  finally have "at_index (str_split sep s) 1 = at_index (str_split sep ?v) 0"
    using str_split_not_Nil [of sep ?v] by (simp add: at_index_def)
  with True show ?thesis
    by (simp add: str_split_first)
qed

lemma toLowerCase_append: "toLowerCase (u @ v) = toLowerCase u @ toLowerCase v"
  by (simp add: toLowerCase_def)

section \<open>The role account detector\<close>

lemma isRoleBasedEmail_iff:
  "isRoleBasedEmail e \<longleftrightarrow>
    (\<exists>p \<in> set roleBasedPrefixes.
       toLowerCase (local_part e) = p
       \<or> prefix (p @ ''.'') (toLowerCase (local_part e))
       \<or> prefix (p @ ''-'') (toLowerCase (local_part e)))"
proof (cases "local_part e = []")
  case True
  then show ?thesis
    by (simp add: isRoleBasedEmail_def str_split_first local_part_def toLowerCase_def
        roleBasedPrefixes_def)
next
  case False
  then show ?thesis
    by (simp add: isRoleBasedEmail_def str_split_first local_part_def toLowerCase_def
        startsWith_def list_ex_iff)
qed

lemma roleBasedPrefixes_lower: "p \<in> set roleBasedPrefixes \<Longrightarrow> toLowerCase p = p"
  by (auto simp: roleBasedPrefixes_def toLowerCase_def lower_char_def)

lemma local_part_no_at: "CHR ''@'' \<notin> set s \<Longrightarrow> local_part s = s"
  by (auto simp: local_part_def)

text \<open>
  C1, as stated, asks for \<open>false\<close> on \<open>administrator@x.com\<close>. The list of role prefixes
  holds \<open>administrator\<close> itself, so the detector answers \<open>true\<close> there.
\<close>

theorem isRoleBasedEmail_administrator:
  "\<not> (isRoleBasedEmail ''administrator@x.com'' = False)"
  by (simp add: isRoleBasedEmail_def at_index_def toLowerCase_def lower_char_def
      startsWith_def roleBasedPrefixes_def)

text \<open>
  C1, amended. \<open>isRoleBasedEmail\<close> is true for \<open>admin@x.com\<close>, \<open>admin.team@x.com\<close>,
  \<open>admin-bot@x.com\<close> and, \<open>administrator\<close> being a listed prefix, for
  \<open>administrator@x.com\<close>; it is false for \<open>admins@x.com\<close>. An address matches exactly
  when its lower-cased local part equals a listed prefix or is that prefix followed by
  \<open>.\<close> or \<open>-\<close> and any rest: a prefix followed by anything else does not count.
\<close>

theorem isRoleBasedEmail_exact_or_separator:
  "isRoleBasedEmail ''admin@x.com'' \<and> isRoleBasedEmail ''admin.team@x.com''
   \<and> isRoleBasedEmail ''admin-bot@x.com'' \<and> isRoleBasedEmail ''administrator@x.com''
   \<and> \<not> isRoleBasedEmail ''admins@x.com''
   \<and> (isRoleBasedEmail e \<longleftrightarrow>
        (\<exists>p \<in> set roleBasedPrefixes.
           toLowerCase (local_part e) = p
           \<or> (\<exists>rest. toLowerCase (local_part e) = p @ ''.'' @ rest)
           \<or> (\<exists>rest. toLowerCase (local_part e) = p @ ''-'' @ rest)))"
proof (intro conjI)
  show "isRoleBasedEmail e \<longleftrightarrow>
        (\<exists>p \<in> set roleBasedPrefixes.
           toLowerCase (local_part e) = p
           \<or> (\<exists>rest. toLowerCase (local_part e) = p @ ''.'' @ rest)
           \<or> (\<exists>rest. toLowerCase (local_part e) = p @ ''-'' @ rest))"
    unfolding isRoleBasedEmail_iff prefix_def by simp
qed (simp_all add: isRoleBasedEmail_def at_index_def toLowerCase_def lower_char_def
      startsWith_def roleBasedPrefixes_def)

text \<open>
  C9. On a string without \<open>@\<close> the detector takes the whole string for the local part:
  such a string that equals a role prefix, or starts with one followed by \<open>.\<close> or \<open>-\<close>,
  is reported as role based, although it is no address.
\<close>

theorem isRoleBasedEmail_without_at:
  assumes "CHR ''@'' \<notin> set s"
  shows "(isRoleBasedEmail s \<longleftrightarrow>
           (\<exists>p \<in> set roleBasedPrefixes.
              toLowerCase s = p \<or> startsWith (toLowerCase s) (p @ ''.'')
              \<or> startsWith (toLowerCase s) (p @ ''-'')))
         \<and> (\<forall>p \<in> set roleBasedPrefixes.
              s = p \<or> (\<exists>rest. s = p @ ''.'' @ rest) \<or> (\<exists>rest. s = p @ ''-'' @ rest)
              \<longrightarrow> isRoleBasedEmail s)"
proof (intro conjI ballI impI)
  show iff: "isRoleBasedEmail s \<longleftrightarrow>
           (\<exists>p \<in> set roleBasedPrefixes.
              toLowerCase s = p \<or> startsWith (toLowerCase s) (p @ ''.'')
              \<or> startsWith (toLowerCase s) (p @ ''-''))"
    using assms by (simp add: isRoleBasedEmail_iff local_part_no_at startsWith_def)
  fix p
  assume p: "p \<in> set roleBasedPrefixes"
    and s: "s = p \<or> (\<exists>rest. s = p @ ''.'' @ rest) \<or> (\<exists>rest. s = p @ ''-'' @ rest)"
  have dot: "toLowerCase ''.'' = ''.''" and hyphen: "toLowerCase ''-'' = ''-''"
    by (simp_all add: toLowerCase_def lower_char_def)
  from s have "toLowerCase s = p \<or> prefix (p @ ''.'') (toLowerCase s)
      \<or> prefix (p @ ''-'') (toLowerCase s)"
  proof (elim disjE exE)
    assume "s = p"
    then show ?thesis
      using roleBasedPrefixes_lower [OF p] by simp
  next
    fix rest assume "s = p @ ''.'' @ rest"
    then have "toLowerCase s = p @ ''.'' @ toLowerCase rest"
      using roleBasedPrefixes_lower [OF p] dot by (simp only: toLowerCase_append)
    then show ?thesis
      by (simp add: prefix_def)
  next
    fix rest assume "s = p @ ''-'' @ rest"
    then have "toLowerCase s = p @ ''-'' @ toLowerCase rest"
      using roleBasedPrefixes_lower [OF p] hyphen by (simp only: toLowerCase_append)
    then show ?thesis
      by (simp add: prefix_def)
  qed
  with p show "isRoleBasedEmail s"
    unfolding iff startsWith_def by blast
qed

theorem isRoleBasedEmail_without_at_witness:
  "CHR ''@'' \<notin> set ''admin'' \<and> isRoleBasedEmail ''admin'' \<and> isRoleBasedEmail ''admin-bot''"
proof -
  have a: "CHR ''@'' \<notin> set ''admin''" and b: "CHR ''@'' \<notin> set ''admin-bot''"
    by simp_all
  have p: "''admin'' \<in> set roleBasedPrefixes"
    by (simp add: roleBasedPrefixes_def)
  have "isRoleBasedEmail ''admin''"
    using isRoleBasedEmail_without_at [OF a] p by blast
  moreover have "isRoleBasedEmail ''admin-bot''"
    using isRoleBasedEmail_without_at [OF b] p by fastforce
  ultimately show ?thesis
    using a by blast
qed

section \<open>The matcher decides the language\<close>

lemma conc_Nil: "[] \<in> conc A B \<longleftrightarrow> [] \<in> A \<and> [] \<in> B"
  by (auto simp: conc_def)

lemma conc_Cons:
  "c # w \<in> conc A B \<longleftrightarrow>
     (\<exists>u v. w = u @ v \<and> c # u \<in> A \<and> v \<in> B) \<or> ([] \<in> A \<and> c # w \<in> B)"
  by (auto simp: conc_def Cons_eq_append_conv)

lemma conc_mono: "B \<subseteq> B' \<Longrightarrow> conc A B \<subseteq> conc A B'"
  by (auto simp: conc_def)

lemma conc_iff: "w \<in> conc A B \<longleftrightarrow> (\<exists>u v. w = u @ v \<and> u \<in> A \<and> v \<in> B)"
  by (auto simp: conc_def)

lemma conc_assoc: "conc (conc A B) C = conc A (conc B C)"
proof -
  have "w \<in> conc (conc A B) C \<longleftrightarrow> w \<in> conc A (conc B C)" for w
    unfolding conc_iff by (metis append.assoc)
  then show ?thesis
    by blast
qed

lemma star_Cons:
  "c # w \<in> star A \<longleftrightarrow> (\<exists>u v. w = u @ v \<and> c # u \<in> A \<and> v \<in> star A)"
proof
  have "x \<in> star A \<Longrightarrow> x = c # w \<Longrightarrow> \<exists>u v. w = u @ v \<and> c # u \<in> A \<and> v \<in> star A" for x
  proof (induction x rule: star.induct)
    case star_nil
    then show ?case by simp
  next
    case (star_step u v)
    then show ?case
      by (cases u) auto
  qed
  then show "c # w \<in> star A \<Longrightarrow> \<exists>u v. w = u @ v \<and> c # u \<in> A \<and> v \<in> star A"
    by blast
next
  assume "\<exists>u v. w = u @ v \<and> c # u \<in> A \<and> v \<in> star A"
  then obtain u v where "w = u @ v" "c # u \<in> A" "v \<in> star A"
    by blast
  then show "c # w \<in> star A"
    using star_step [of "c # u" A v] by simp
qed

lemma at_most_Nil: "[] \<in> at_most n A"
  by (cases n) simp_all

lemma at_most_Suc_subset: "at_most n A \<subseteq> at_most (Suc n) A"
proof (induction n)
  case 0
  then show ?case by simp
next
  case (Suc n)
  then show ?case
    using conc_mono [of "at_most n A" "at_most (Suc n) A" A] by auto
qed

lemma at_most_Cons:
  "c # w \<in> at_most n A \<longleftrightarrow>
     n \<noteq> 0 \<and> (\<exists>u v. w = u @ v \<and> c # u \<in> A \<and> v \<in> at_most (n - 1) A)"
proof (induction n)
  case 0
  then show ?case by simp
next
  case (Suc n)
  show ?case
  proof
    assume "c # w \<in> at_most (Suc n) A"
    then consider "\<exists>u v. w = u @ v \<and> c # u \<in> A \<and> v \<in> at_most n A"
      | "c # w \<in> at_most n A"
      by (auto simp: conc_Cons)
    then show "Suc n \<noteq> 0 \<and> (\<exists>u v. w = u @ v \<and> c # u \<in> A \<and> v \<in> at_most (Suc n - 1) A)"
    proof cases
      case 1
      then show ?thesis by simp
    next
      case 2
      with Suc.IH obtain u v where "n \<noteq> 0" "w = u @ v" "c # u \<in> A" "v \<in> at_most (n - 1) A"
        by blast
      moreover from this have "v \<in> at_most n A"
        using at_most_Suc_subset [of "n - 1" A] by auto
      ultimately show ?thesis by auto
    qed
  next
    assume "Suc n \<noteq> 0 \<and> (\<exists>u v. w = u @ v \<and> c # u \<in> A \<and> v \<in> at_most (Suc n - 1) A)"
    then show "c # w \<in> at_most (Suc n) A"
      by (auto simp: conc_Cons)
  qed
qed

lemma nullable_iff: "nullable r \<longleftrightarrow> [] \<in> lang r"
  by (induction r) (auto simp: conc_Nil star_nil at_most_Nil)

lemma lang_deriv: "w \<in> lang (deriv c r) \<longleftrightarrow> c # w \<in> lang r"
proof (induction r arbitrary: w)
  case (Seq r1 r2)
  have "w \<in> lang (deriv c (Seq r1 r2)) \<longleftrightarrow>
          (\<exists>u v. w = u @ v \<and> c # u \<in> lang r1 \<and> v \<in> lang r2)
          \<or> ([] \<in> lang r1 \<and> c # w \<in> lang r2)"
    using Seq.IH by (auto simp: conc_iff nullable_iff)
  then show ?case
    by (simp add: conc_Cons)
next
  case (Star r)
  have "w \<in> lang (deriv c (Star r)) \<longleftrightarrow>
          (\<exists>u v. w = u @ v \<and> c # u \<in> lang r \<and> v \<in> star (lang r))"
    using Star.IH by (auto simp: conc_iff)
  then show ?case
    by (simp add: star_Cons)
next
  case (AtMost n r)
  have "w \<in> lang (deriv c (AtMost n r)) \<longleftrightarrow>
          n \<noteq> 0 \<and> (\<exists>u v. w = u @ v \<and> c # u \<in> lang r \<and> v \<in> at_most (n - 1) (lang r))"
    using AtMost.IH by (auto simp: conc_iff)
  then show ?case
    by (simp add: at_most_Cons)
qed auto

lemma test_iff: "test r s \<longleftrightarrow> s \<in> lang r"
  unfolding test_def
  by (induction s arbitrary: r) (simp_all add: nullable_iff lang_deriv)


section \<open>The languages of the domain expressions\<close>

lemma alpha_class:
  "in_class c [Range CHR ''a'' CHR ''z'', Range CHR ''A'' CHR ''Z''] = is_letter c"
proof -
  have "\<forall>c. in_class c [Range CHR ''a'' CHR ''z'', Range CHR ''A'' CHR ''Z''] = is_letter c"
    by code_simp
  then show ?thesis
    by blast
qed

lemma alnum_class:
  "in_class c [Range CHR ''a'' CHR ''z'', Range CHR ''A'' CHR ''Z'', Range CHR ''0'' CHR ''9'']
     = (is_letter c \<or> is_digit c)"
proof -
  have "\<forall>c. in_class c [Range CHR ''a'' CHR ''z'', Range CHR ''A'' CHR ''Z'',
                          Range CHR ''0'' CHR ''9'']
          = (is_letter c \<or> is_digit c)"
    by code_simp
  then show ?thesis
    by blast
qed

lemma alnum_hyphen_class:
  "in_class c [Range CHR ''a'' CHR ''z'', Range CHR ''A'' CHR ''Z'', Range CHR ''0'' CHR ''9'',
               Single CHR ''-'']
     = (is_letter c \<or> is_digit c \<or> c = CHR ''-'')"
  using alnum_class [of c] by (auto simp: in_class_def)

lemma lang_alpha: "lang alpha = chars_of is_letter"
  by (simp add: alpha_def chars_of_def alpha_class)

lemma lang_alnum: "lang alnum = chars_of (\<lambda>c. is_letter c \<or> is_digit c)"
  by (simp add: alnum_def chars_of_def alnum_class)

lemma lang_alnum_hyphen:
  "lang alnum_hyphen = chars_of (\<lambda>c. is_letter c \<or> is_digit c \<or> c = CHR ''-'')"
  by (simp add: alnum_hyphen_def chars_of_def alnum_hyphen_class)

lemma lang_dot: "lang dot = {''.''}"
  by (auto simp: dot_def in_class_def)

lemma chars_of_Cons: "c # u \<in> chars_of P \<longleftrightarrow> P c \<and> u = []"
  by (auto simp: chars_of_def)

lemma chars_of_iff: "x \<in> chars_of P \<longleftrightarrow> (\<exists>c. x = [c] \<and> P c)"
  by (auto simp: chars_of_def)

lemma chars_of_Nil: "[] \<notin> chars_of P"
  by (simp add: chars_of_def)

lemma star_chars: "w \<in> star (chars_of P) \<longleftrightarrow> list_all P w"
proof (induction w)
  case Nil
  then show ?case by (simp add: star_nil)
next
  case (Cons c w)
  then show ?case
    by (simp add: star_Cons chars_of_Cons)
qed

lemma at_most_chars: "w \<in> at_most n (chars_of P) \<longleftrightarrow> length w \<le> n \<and> list_all P w"
proof (induction w arbitrary: n)
  case Nil
  then show ?case by (simp add: at_most_Nil)
next
  case (Cons c w)
  have "c # w \<in> at_most n (chars_of P) \<longleftrightarrow>
          n \<noteq> 0 \<and> P c \<and> w \<in> at_most (n - 1) (chars_of P)"
    by (simp add: at_most_Cons chars_of_Cons del: at_most.simps)
  with Cons.IH [of "n - 1"] show ?case
    by auto
qed

lemma test_Plus_alpha: "test (Plus alpha) w \<longleftrightarrow> w \<noteq> [] \<and> list_all is_letter w"
  by (cases w)
    (simp_all add: test_iff Plus_def lang_alpha conc_Nil conc_Cons chars_of_Nil chars_of_Cons
      star_chars)

lemma not_hyphen: "is_letter c \<or> is_digit c \<Longrightarrow> c \<noteq> CHR ''-''"
  by (auto simp: is_letter_def is_digit_def)

lemma not_dot: "is_letter c \<or> is_digit c \<or> c = CHR ''-'' \<Longrightarrow> c \<noteq> CHR ''.''"
  by (auto simp: is_letter_def is_digit_def)

lemma lang_label: "w \<in> lang label_regex \<longleftrightarrow> is_label w"
proof (cases w)
  case Nil
  then show ?thesis
    by (simp add: label_regex_def lang_alnum conc_Nil chars_of_Nil is_label_def)
next
  case (Cons c u)
  let ?ok = "\<lambda>c. is_letter c \<or> is_digit c \<or> c = CHR ''-''"
  let ?an = "\<lambda>c. is_letter c \<or> is_digit c"
  have tail: "u \<in> conc (at_most 61 (chars_of ?ok)) (chars_of ?an) \<longleftrightarrow>
      u \<noteq> [] \<and> length u \<le> 62 \<and> list_all ?ok u \<and> last u \<noteq> CHR ''-''"
  proof
    assume "u \<in> conc (at_most 61 (chars_of ?ok)) (chars_of ?an)"
    then obtain m e where "u = m @ [e]" "length m \<le> 61" "list_all ?ok m" "?an e"
      by (auto simp: conc_iff at_most_chars chars_of_iff)
    then show "u \<noteq> [] \<and> length u \<le> 62 \<and> list_all ?ok u \<and> last u \<noteq> CHR ''-''"
      using not_hyphen [of e] by auto
  next
    assume u: "u \<noteq> [] \<and> length u \<le> 62 \<and> list_all ?ok u \<and> last u \<noteq> CHR ''-''"
    then have "u = butlast u @ [last u]"
      by simp
    moreover from u have "length (butlast u) \<le> 61" "list_all ?ok (butlast u)" "?an (last u)"
      by (auto simp: list_all_iff dest: in_set_butlastD)
    ultimately show "u \<in> conc (at_most 61 (chars_of ?ok)) (chars_of ?an)"
      unfolding conc_iff at_most_chars chars_of_iff by blast
  qed
  show ?thesis
  proof (cases "u = []")
    case True
    with Cons show ?thesis
      using not_hyphen [of c]
      by (auto simp: label_regex_def Opt_def lang_alnum conc_Cons chars_of_Nil chars_of_Cons
          is_label_def)
  next
    case False
    with Cons tail show ?thesis
      using not_hyphen [of c]
      by (auto simp: label_regex_def Opt_def lang_alnum lang_alnum_hyphen conc_Cons chars_of_Nil
          chars_of_Cons is_label_def)
  qed
qed


lemma lang_domainRegex:
  "lang domainRegex = conc (lang label_regex) (star (conc {''.''} (lang label_regex)))"
  by (simp add: domainRegex_def label_regex_def conc_assoc lang_dot)

lemma lang_label_Collect: "lang label_regex = Collect is_label"
  using lang_label by blast

lemma label_no_dot: "is_label l \<Longrightarrow> CHR ''.'' \<notin> set l"
  using not_dot by (auto simp: is_label_def list_all_iff)

lemma dotted_labels_split:
  assumes "v \<in> star (conc {''.''} (Collect is_label))" and "CHR ''.'' \<notin> set l"
  shows "\<exists>ps. str_split CHR ''.'' (l @ v) = l # ps \<and> list_all is_label ps"
  using assms
proof (induction v arbitrary: l rule: star.induct)
  case star_nil
  then show ?case
    by (simp add: str_split_no_sep)
next
  case (star_step u v)
  from star_step.hyps(1) obtain l' where u: "u = CHR ''.'' # l'" and l': "is_label l'"
    by (auto simp: conc_iff)
  from star_step.IH [OF label_no_dot [OF l']]
  obtain ps where ps: "str_split CHR ''.'' (l' @ v) = l' # ps" "list_all is_label ps"
    by blast
  have "str_split CHR ''.'' (l @ u @ v) = l # str_split CHR ''.'' (l' @ v)"
    using str_split_append_sep [OF star_step.prems, of "l' @ v"] u by simp
  with ps l' show ?case
    by simp
qed

lemma split_dotted_labels:
  assumes "list_all is_label (tl (str_split CHR ''.'' d))"
  shows "\<exists>v. d = hd (str_split CHR ''.'' d) @ v \<and> v \<in> star (conc {''.''} (Collect is_label))"
  using assms
proof (induction d)
  case Nil
  then show ?case
    by (simp add: star_nil)
next
  case (Cons c cs)
  obtain p ps where split: "str_split CHR ''.'' cs = p # ps"
    using str_split_not_Nil [of "CHR ''.''" cs] by (cases "str_split CHR ''.'' cs") auto
  show ?case
  proof (cases "c = CHR ''.''")
    case True
    with Cons.prems split have p: "is_label p" and "list_all is_label ps"
      by simp_all
    with Cons.IH split obtain v where v: "cs = p @ v" "v \<in> star (conc {''.''} (Collect is_label))"
      by auto
    from p have "CHR ''.'' # p \<in> conc {''.''} (Collect is_label)"
      by (auto simp: conc_iff)
    with v have "(CHR ''.'' # p) @ v \<in> star (conc {''.''} (Collect is_label))"
      by (intro star_step)
    with True v show ?thesis
      by simp
  next
    case False
    with Cons.prems split have "list_all is_label ps"
      by simp
    with Cons.IH split obtain v where "cs = p @ v" "v \<in> star (conc {''.''} (Collect is_label))"
      by auto
    with False split show ?thesis
      by simp
  qed
qed

lemma test_domainRegex: "test domainRegex d \<longleftrightarrow> list_all is_label (str_split CHR ''.'' d)"
proof
  assume "test domainRegex d"
  then obtain l v where "d = l @ v" "is_label l" "v \<in> star (conc {''.''} (Collect is_label))"
    by (auto simp: test_iff lang_domainRegex lang_label_Collect conc_iff)
  then show "list_all is_label (str_split CHR ''.'' d)"
    using dotted_labels_split [of v l] label_no_dot [of l] by auto
next
  assume labels: "list_all is_label (str_split CHR ''.'' d)"
  obtain p ps where split: "str_split CHR ''.'' d = p # ps"
    using str_split_not_Nil [of "CHR ''.''" d] by (cases "str_split CHR ''.'' d") auto
  with labels have "is_label p" "list_all is_label (tl (str_split CHR ''.'' d))"
    by simp_all
  with split split_dotted_labels [of d] show "test domainRegex d"
    by (auto simp: test_iff lang_domainRegex lang_label_Collect conc_iff)
qed

section \<open>The syntax grammar and the exported expression\<close>

lemma local_class:
  "in_class c
     [Range CHR ''a'' CHR ''z'', Range CHR ''A'' CHR ''Z'', Range CHR ''0'' CHR ''9'',
      Single CHR ''.'', Single CHR ''!'', Single CHR ''#'', Single CHR ''$'', Single CHR ''%'',
      Single CHR ''&'', Single CHR 0x27, Single CHR ''*'', Single CHR ''+'', Single CHR ''/'',
      Single CHR ''='', Single CHR ''?'', Single CHR ''^'', Single CHR ''_'', Single CHR ''`'',
      Single CHR ''{'', Single CHR ''|'', Single CHR ''}'', Single CHR ''~'', Single CHR ''-'']
   = is_local_char c"
  using alnum_class [of c] by (auto simp: in_class_def is_local_char_def)

lemma lang_local_chars: "lang local_chars = chars_of is_local_char"
  by (simp add: local_chars_def chars_of_def local_class)

lemma lang_at_sign: "lang at_sign = {''@''}"
  by (auto simp: at_sign_def in_class_def)

lemma plus_chars: "w \<in> conc (chars_of P) (star (chars_of P)) \<longleftrightarrow> w \<noteq> [] \<and> list_all P w"
  by (cases w) (simp_all add: conc_Nil conc_Cons chars_of_Nil chars_of_Cons star_chars)

lemma RFC5322_domainRegex:
  "RFC5322_EMAIL_REGEX = Seq (Plus local_chars) (Seq at_sign domainRegex)"
  by (simp add: RFC5322_EMAIL_REGEX_def domainRegex_def)

lemma test_RFC5322:
  "test RFC5322_EMAIL_REGEX s \<longleftrightarrow>
     (\<exists>l d. s = l @ CHR ''@'' # d \<and> l \<noteq> [] \<and> list_all is_local_char l
            \<and> list_all is_label (str_split CHR ''.'' d))"
  by (auto simp: test_iff RFC5322_domainRegex Plus_def lang_local_chars lang_at_sign
      conc_iff [of _ "conc (chars_of is_local_char) (star (chars_of is_local_char))"]
      conc_iff [of _ "{''@''}"] plus_chars test_domainRegex [unfolded test_iff])

lemma str_split_one: "str_split sep s = [d] \<Longrightarrow> s = d \<and> sep \<notin> set s"
  by (induction s arbitrary: d) (auto simp: str_split_not_Nil split: if_splits list.splits)

lemma str_split_two:
  "str_split sep s = [l, d] \<Longrightarrow> s = l @ sep # d \<and> sep \<notin> set l \<and> sep \<notin> set d"
proof (induction s arbitrary: l)
  case Nil
  then show ?case by simp
next
  case (Cons c cs)
  show ?case
  proof (cases "c = sep")
    case True
    with Cons.prems have "l = []" "str_split sep cs = [d]"
      by simp_all
    with True str_split_one [of sep cs d] show ?thesis
      by auto
  next
    case False
    with Cons.prems obtain p where "l = c # p" "str_split sep cs = [p, d]"
      by (auto split: list.splits)
    with False Cons.IH [of p] show ?thesis
      by simp
  qed
qed

lemma set_str_split: "set s \<subseteq> insert sep (\<Union>piece \<in> set (str_split sep s). set piece)"
proof (induction s)
  case Nil
  then show ?case by simp
next
  case (Cons c cs)
  obtain p ps where "str_split sep cs = p # ps"
    using str_split_not_Nil [of sep cs] by (cases "str_split sep cs") auto
  with Cons.IH show ?case
    by (cases "c = sep") auto
qed

lemma local_char_not_at: "is_local_char c \<Longrightarrow> c \<noteq> CHR ''@''"
  by (auto simp: is_local_char_def is_letter_def is_digit_def)

lemma label_no_at: "is_label l \<Longrightarrow> CHR ''@'' \<notin> set l"
  by (auto simp: is_label_def list_all_iff is_letter_def is_digit_def)

lemma labels_no_at:
  assumes "list_all is_label (str_split CHR ''.'' d)"
  shows "CHR ''@'' \<notin> set d"
proof
  assume "CHR ''@'' \<in> set d"
  with set_str_split [of d "CHR ''.''"]
  obtain piece where "piece \<in> set (str_split CHR ''.'' d)" "CHR ''@'' \<in> set piece"
    by auto
  with assms show False
    using label_no_at by (auto simp: list_all_iff)
qed

lemma validateEmailSyntax_iff:
  "validateEmailSyntax s \<longleftrightarrow>
     (\<exists>l d. s = l @ CHR ''@'' # d \<and> l \<noteq> [] \<and> list_all is_local_char l
            \<and> list_all is_label (str_split CHR ''.'' d))"
proof
  assume "validateEmailSyntax s"
  then obtain l d where split: "str_split CHR ''@'' s = [l, d]"
    and ok: "l \<noteq> []" "list_all is_local_char l" "list_all is_label (str_split CHR ''.'' d)"
    by (auto simp: validateEmailSyntax_def emailSchema_parse_def split: list.splits if_splits)
  from str_split_two [OF split] ok
  show "\<exists>l d. s = l @ CHR ''@'' # d \<and> l \<noteq> [] \<and> list_all is_local_char l
            \<and> list_all is_label (str_split CHR ''.'' d)"
    by blast
next
  assume "\<exists>l d. s = l @ CHR ''@'' # d \<and> l \<noteq> [] \<and> list_all is_local_char l
            \<and> list_all is_label (str_split CHR ''.'' d)"
  then obtain l d where s: "s = l @ CHR ''@'' # d"
    and ok: "l \<noteq> []" "list_all is_local_char l" "list_all is_label (str_split CHR ''.'' d)"
    by blast
  from ok(2) have "CHR ''@'' \<notin> set l"
    using local_char_not_at by (auto simp: list_all_iff)
  moreover from ok(3) have "CHR ''@'' \<notin> set d"
    by (rule labels_no_at)
  ultimately have "str_split CHR ''@'' s = [l, d]"
    unfolding s by (simp add: str_split_append_sep str_split_no_sep)
  with ok show "validateEmailSyntax s"
    by (simp add: validateEmailSyntax_def emailSchema_parse_def)
qed

lemma validateEmailSyntax_RFC5322: "validateEmailSyntax s \<longleftrightarrow> test RFC5322_EMAIL_REGEX s"
  by (simp only: validateEmailSyntax_iff test_RFC5322)

section \<open>The domain structural checker\<close>

lemma at_index_last: "xs \<noteq> [] \<Longrightarrow> at_index xs (length xs - 1) = Some (last xs)"
  by (simp add: at_index_def last_conv_nth)

lemma validateDomain_iff:
  "validateDomain e =
     Inr (case domain_piece e of None \<Rightarrow> False | Some d \<Rightarrow> d \<noteq> [] \<and> spec_domain_ok d)"
proof (cases "CHR ''@'' \<in> set e")
  case False
  then show ?thesis
    by (simp add: validateDomain_def str_includes_def domain_piece_def)
next
  case True
  define d where "d = takeWhile (\<lambda>c. c \<noteq> CHR ''@'') (tl (dropWhile (\<lambda>c. c \<noteq> CHR ''@'') e))"
  have piece: "domain_piece e = Some d" and split: "at_index (str_split CHR ''@'' e) 1 = Some d"
    using True by (simp_all only: domain_piece_def str_split_second d_def if_True)
  have tld: "at_index (str_split CHR ''.'' d) (length (str_split CHR ''.'' d) - 1)
      = Some (last (str_split CHR ''.'' d))"
    by (rule at_index_last) (rule str_split_not_Nil)
  have "validateDomain e =
     (if d = [] then Inr False
      else if \<not> test domainRegex d then Inr False
      else Inr (length (last (str_split CHR ''.'' d)) \<ge> 2
                \<and> test (Plus alpha) (last (str_split CHR ''.'' d))))"
    using True by (simp only: validateDomain_def str_includes_def split tld Let_def
        option.case not_True_eq_False if_False)
  then show ?thesis
    by (auto simp: piece spec_domain_ok_def Let_def test_domainRegex test_Plus_alpha)
qed

lemma takeWhile_all: "c \<notin> set xs \<Longrightarrow> takeWhile (\<lambda>x. x \<noteq> c) xs = xs"
  by (induction xs) auto

lemma dropWhile_to_sep:
  "c \<notin> set u \<Longrightarrow> dropWhile (\<lambda>x. x \<noteq> c) (u @ c # v) = c # v"
  by (induction u) auto

lemma takeWhile_to_sep:
  "c \<notin> set u \<Longrightarrow> takeWhile (\<lambda>x. x \<noteq> c) (u @ c # v) = u"
  by (induction u) auto

lemma single_sep_pieces:
  assumes "c \<notin> set u" and "c \<notin> set v"
  shows "takeWhile (\<lambda>x. x \<noteq> c) (tl (dropWhile (\<lambda>x. x \<noteq> c) (u @ c # v))) = v"
    and "tl (dropWhile (\<lambda>x. x \<noteq> c) (u @ c # v)) = v"
    and "rev (takeWhile (\<lambda>x. x \<noteq> c) (rev (u @ c # v))) = v"
proof -
  show "tl (dropWhile (\<lambda>x. x \<noteq> c) (u @ c # v)) = v"
    using assms(1) by (simp add: dropWhile_to_sep)
  then show "takeWhile (\<lambda>x. x \<noteq> c) (tl (dropWhile (\<lambda>x. x \<noteq> c) (u @ c # v))) = v"
    using assms(2) by (simp add: takeWhile_all)
  have "rev (u @ c # v) = rev v @ c # rev u"
    by simp
  moreover have "takeWhile (\<lambda>x. x \<noteq> c) (rev v @ c # rev u) = rev v"
    using assms(2) by (intro takeWhile_to_sep) simp
  ultimately show "rev (takeWhile (\<lambda>x. x \<noteq> c) (rev (u @ c # v))) = v"
    by simp
qed

lemma single_at_domain:
  assumes "CHR ''@'' \<notin> set u" and "CHR ''@'' \<notin> set v"
  shows "domain_piece (u @ CHR ''@'' # v) = Some v"
    and "after_first_at (u @ CHR ''@'' # v) = Some v"
    and "after_last_at (u @ CHR ''@'' # v) = Some v"
  using single_sep_pieces [OF assms]
  by (simp_all add: domain_piece_def after_first_at_def after_last_at_def)

lemma ex_b_com: "spec_domain_ok ''b.com''"
  by (simp add: spec_domain_ok_def is_label_def is_letter_def)

lemma ex_b_com_c_com: "\<not> spec_domain_ok ''b.com@c.com''"
  by (simp add: spec_domain_ok_def is_label_def is_letter_def is_digit_def)

text \<open>
  C7, as stated, has the checker validate the whole substring after the first \<open>@\<close>. On
  \<open>a@b.com@c.com\<close> that substring is \<open>b.com@c.com\<close>, which is no domain, yet the
  checker reads \<open>b.com\<close> and answers \<open>true\<close>.
\<close>

theorem validateDomain_not_after_first_at:
  "validateDomain ''a@b.com@c.com'' \<noteq>
     Inr (case after_first_at ''a@b.com@c.com'' of
            None \<Rightarrow> False | Some d \<Rightarrow> d \<noteq> [] \<and> spec_domain_ok d)"
  using ex_b_com ex_b_com_c_com
  by (simp add: validateDomain_iff domain_piece_def after_first_at_def)

text \<open>
  C7, amended. \<open>validateDomain\<close> validates the piece between the first \<open>@\<close> and the next
  \<open>@\<close> or the end of the string, which is the substring after the first \<open>@\<close> when the
  string has one \<open>@\<close> only. It returns false when there is no \<open>@\<close> or the piece is
  empty, and otherwise true exactly when the piece is made of labels separated by dots,
  each of 1 to 63 letters, digits and inner hyphens, and its last label has at least two
  characters, all letters. It never throws.
\<close>

theorem validateDomain_spec:
  "validateDomain e =
     Inr (case domain_piece e of None \<Rightarrow> False | Some d \<Rightarrow> d \<noteq> [] \<and> spec_domain_ok d)
   \<and> (CHR ''@'' \<notin> set e \<longrightarrow> validateDomain e = Inr False)
   \<and> (CHR ''@'' \<notin> set u \<and> CHR ''@'' \<notin> set v \<longrightarrow>
        domain_piece (u @ CHR ''@'' # v) = Some v \<and> after_first_at (u @ CHR ''@'' # v) = Some v)"
  using validateDomain_iff [of e] single_at_domain(1,2) [of u v]
  by (simp add: domain_piece_def)

theorem validateDomain_spec_witness:
  "CHR ''@'' \<notin> set ''a'' \<and> CHR ''@'' \<notin> set ''b.com''
   \<and> after_first_at ''a@b.com'' = Some ''b.com''
   \<and> validateDomain ''a@b.com'' = Inr True
   \<and> validateDomain ''b.com'' = Inr False"
proof -
  have no: "CHR ''@'' \<notin> set ''a''" "CHR ''@'' \<notin> set ''b.com''"
    by simp_all
  from validateDomain_spec [of "''a@b.com''" "''a''" "''b.com''"] no
  have "validateDomain ''a@b.com'' = Inr True" and "after_first_at ''a@b.com'' = Some ''b.com''"
    using ex_b_com by simp_all
  moreover from validateDomain_spec [of "''b.com''"] no
  have "validateDomain ''b.com'' = Inr False"
    by blast
  ultimately show ?thesis
    using no by blast
qed

lemma no_at_syntax: "CHR ''@'' \<notin> set s \<Longrightarrow> \<not> validateEmailSyntax s"
  by (simp add: validateEmailSyntax_def emailSchema_parse_def str_split_no_sep)

lemma no_at_domain: "CHR ''@'' \<notin> set s \<Longrightarrow> validateDomain s = Inr False"
  by (simp add: validateDomain_def str_includes_def)

text \<open>
  C8. On every string without \<open>@\<close> the syntax checker returns false and the domain
  structural checker returns false.
\<close>

theorem no_at_sign_rejected:
  assumes "CHR ''@'' \<notin> set s"
  shows "validateEmailSyntax s = False \<and> validateDomain s = Inr False"
  using assms by (simp add: no_at_syntax no_at_domain)

theorem no_at_sign_rejected_witness:
  "CHR ''@'' \<notin> set ''no-at-sign'' \<and> validateEmailSyntax ''no-at-sign'' = False
   \<and> validateDomain ''no-at-sign'' = Inr False"
proof -
  have no: "CHR ''@'' \<notin> set ''no-at-sign''"
    by simp
  from no_at_sign_rejected [OF no] no show ?thesis
    by blast
qed

section \<open>The disposable provider detector\<close>

lemma disposableDomains_lower: "map toLowerCase disposableDomains = disposableDomains"
  by (simp add: disposableDomains_def toLowerCase_def lower_char_def)

lemma isDisposableEmail_iff:
  "isDisposableEmail e \<longleftrightarrow>
     (case domain_piece e of None \<Rightarrow> False | Some d \<Rightarrow> listed_disposable d)"
proof -
  have "[] \<notin> set disposableDomains"
    by (simp add: disposableDomains_def)
  then show ?thesis
    unfolding isDisposableEmail_def str_split_second domain_piece_def listed_disposable_def
      disposableDomains_lower
    by auto
qed

lemma ex_mailinator: "listed_disposable ''mailinator.com''"
  by (simp add: listed_disposable_def disposableDomains_lower)
    (simp add: disposableDomains_def toLowerCase_def lower_char_def)

lemma ex_gmail: "\<not> listed_disposable ''gmail.com''"
  by (simp add: listed_disposable_def disposableDomains_lower)
    (simp add: disposableDomains_def toLowerCase_def lower_char_def)

text \<open>
  C6, as stated, has the detector read the substring after the last \<open>@\<close>. On
  \<open>user@mailinator.com@gmail.com\<close> that is \<open>gmail.com\<close>, which is not listed, yet the
  detector reads \<open>mailinator.com\<close> and answers \<open>true\<close>.
\<close>

theorem isDisposableEmail_not_after_last_at:
  "isDisposableEmail ''user@mailinator.com@gmail.com'' \<noteq>
     (case after_last_at ''user@mailinator.com@gmail.com'' of
        None \<Rightarrow> False | Some d \<Rightarrow> listed_disposable d)"
  using ex_mailinator ex_gmail
  by (simp add: isDisposableEmail_iff domain_piece_def after_last_at_def)

text \<open>
  C6, amended. \<open>isDisposableEmail\<close> takes for the domain the piece between the first \<open>@\<close>
  and the next \<open>@\<close> or the end of the string, which is the substring after the last \<open>@\<close>
  when the string has one \<open>@\<close> only; it returns true exactly when that domain is in the
  deny-list, case ignored, and false when the string has no \<open>@\<close>. So
  \<open>user@mailinator.com\<close> gives true and \<open>user@gmail.com\<close> gives false.
\<close>

theorem isDisposableEmail_spec:
  "(isDisposableEmail e \<longleftrightarrow>
      (case domain_piece e of None \<Rightarrow> False | Some d \<Rightarrow> listed_disposable d))
   \<and> (CHR ''@'' \<notin> set e \<longrightarrow> \<not> isDisposableEmail e)
   \<and> (CHR ''@'' \<notin> set u \<and> CHR ''@'' \<notin> set v \<longrightarrow>
        domain_piece (u @ CHR ''@'' # v) = Some v \<and> after_last_at (u @ CHR ''@'' # v) = Some v)
   \<and> isDisposableEmail ''user@mailinator.com'' \<and> \<not> isDisposableEmail ''user@gmail.com''"
proof (intro conjI)
  show "isDisposableEmail ''user@mailinator.com''"
    using ex_mailinator by (simp add: isDisposableEmail_iff domain_piece_def)
  show "\<not> isDisposableEmail ''user@gmail.com''"
    using ex_gmail by (simp add: isDisposableEmail_iff domain_piece_def)
  show "CHR ''@'' \<notin> set u \<and> CHR ''@'' \<notin> set v \<longrightarrow>
        domain_piece (u @ CHR ''@'' # v) = Some v \<and> after_last_at (u @ CHR ''@'' # v) = Some v"
    by (simp add: single_at_domain)
qed (simp_all add: isDisposableEmail_iff domain_piece_def)

theorem isDisposableEmail_spec_witness:
  "CHR ''@'' \<notin> set ''user'' \<and> CHR ''@'' \<notin> set ''mailinator.com''
   \<and> after_last_at ''user@mailinator.com'' = Some ''mailinator.com''
   \<and> isDisposableEmail ''user@mailinator.com'' \<and> \<not> isDisposableEmail ''mailinator.com''"
proof -
  have no: "CHR ''@'' \<notin> set ''user''" "CHR ''@'' \<notin> set ''mailinator.com''"
    by simp_all
  have "\<not> isDisposableEmail ''mailinator.com''"
    using isDisposableEmail_spec [of "''mailinator.com''"] no(2) by blast
  moreover have "after_last_at ''user@mailinator.com'' = Some ''mailinator.com''"
    using isDisposableEmail_spec [of e "''user''" "''mailinator.com''"] no by simp
  moreover have "isDisposableEmail ''user@mailinator.com''"
    using isDisposableEmail_spec [of e] by blast
  ultimately show ?thesis
    using no by blast
qed

section \<open>The orchestrator's gates\<close>

lemma validateDomain_returns: "\<exists>b. validateDomain e = Inr b"
  using str_split_not_Nil [of "CHR ''.''"]
  by (auto simp: validateDomain_def at_index_def Let_def split: option.splits)

lemma validateDomain_true_has_domain:
  "validateDomain e = Inr True \<Longrightarrow> \<exists>d. at_index (str_split CHR ''@'' e) 1 = Some d"
  by (auto simp: validateDomain_def split: option.splits if_splits)

lemma simulateMXCheck_returns: "\<exists>b w'. simulateMXCheck (Some d) w = (Inr b, w')"
  by (auto simp: simulateMXCheck_def Let_def Math_random_def)

lemma simulateCatchAllDetection_returns:
  "\<exists>b w'. simulateCatchAllDetection (Some d) w = (Inr b, w')"
  by (auto simp: simulateCatchAllDetection_def Let_def Math_random_def)

lemma signals_of_extend:
  "syntax' (signals.extend r m) = syntax' r" "domain (signals.extend r m) = domain r"
  "mx (signals.extend r m) = mx r" "disposable (signals.extend r m) = disposable r"
  "roleBased (signals.extend r m) = roleBased r" "catchAll (signals.extend r m) = catchAll r"
  "smtp (signals.extend r m) = smtp r"
  by (simp_all add: signals.extend_def)

text \<open>
  C3. Whatever the probes answer, \<open>validateEmail\<close> returns a result, and in it \<open>smtp\<close>
  implies \<open>mx\<close> and not \<open>disposable\<close>, and \<open>mx\<close> and \<open>catchAll\<close> each imply \<open>domain\<close>: when
  \<open>mx\<close> is false or \<open>disposable\<close> is true, \<open>smtp\<close> is false.
\<close>

theorem validateEmail_gating:
  "\<exists>r w'. validateEmail e w = (Inr r, w')
     \<and> (smtp r \<longrightarrow> mx r \<and> \<not> disposable r)
     \<and> (mx r \<longrightarrow> domain r) \<and> (catchAll r \<longrightarrow> domain r)
     \<and> (\<not> mx r \<or> disposable r \<longrightarrow> \<not> smtp r)"
proof (cases "validateEmailSyntax e")
  case False
  then show ?thesis
    by (simp add: validateEmail_def)
next
  case syn: True
  obtain dv where dv: "validateDomain e = Inr dv"
    using validateDomain_returns by blast
  show ?thesis
  proof (cases dv)
    case False
    with syn dv show ?thesis
      by (simp add: validateEmail_def Let_def signals_of_extend split: prod.splits)
  next
    case True
    with dv have "validateDomain e = Inr True"
      by simp
    then obtain d where d: "at_index (str_split CHR ''@'' e) 1 = Some d"
      using validateDomain_true_has_domain by blast
    obtain m w1 where m: "simulateMXCheck (Some d) (enter ValidateDomain (enter ValidateEmailSyntax w)) = (Inr m, w1)"
      using simulateMXCheck_returns by blast
    obtain c w2 where c: "simulateCatchAllDetection (Some d) (enter IsRoleBasedEmail (enter IsDisposableEmail w1)) = (Inr c, w2)"
      using simulateCatchAllDetection_returns by blast
    from syn dv True d m c show ?thesis
      by (simp add: validateEmail_def Let_def signals_of_extend split: prod.splits)
  qed
qed

lemma ex_syntax: "validateEmailSyntax ''a@b.co''"
  by (simp add: validateEmailSyntax_def emailSchema_parse_def is_local_char_def is_letter_def
      is_digit_def is_label_def)

lemma ex_domain: "validateDomain ''a@b.co'' = Inr True"
  by (simp add: validateDomain_def str_includes_def at_index_def test_def domainRegex_def
      Opt_def Plus_def alnum_def alnum_hyphen_def alpha_def dot_def in_class_def)

lemma ex_disposable: "\<not> isDisposableEmail ''a@b.co''"
  by (simp add: isDisposableEmail_def at_index_def toLowerCase_def lower_char_def
      disposableDomains_def)

lemma ex_smtp:
  "fst (simulateSMTPCheck ''a@b.co'' w) = (randoms w (drawn w) > 0.3)"
  by (simp add: simulateSMTPCheck_def at_index_def toLowerCase_def lower_char_def
      Math_random_def enter_def Let_def)

lemma ex_mx:
  "simulateMXCheck (Some ''b.co'') w =
     (Inr (randoms w (drawn w) > 0.15), w\<lparr>drawn := drawn w + 1, entered := entered w @ [SimulateMXCheck]\<rparr>)"
  by (simp add: simulateMXCheck_def toLowerCase_def lower_char_def
      Math_random_def enter_def Let_def)

lemma ex_catchAll:
  "simulateCatchAllDetection (Some ''b.co'') w =
     (Inr (randoms w (drawn w) < 0.2), w\<lparr>drawn := drawn w + 1, entered := entered w @ [SimulateCatchAllDetection]\<rparr>)"
  by (simp add: simulateCatchAllDetection_def toLowerCase_def lower_char_def
      Math_random_def enter_def Let_def)

lemma ex_signals:
  "\<exists>r w'. validateEmail ''a@b.co'' \<lparr>randoms = (\<lambda>_. 1 / 2), drawn = 0, entered = []\<rparr> = (Inr r, w')
      \<and> smtp r \<and> mx r \<and> \<not> catchAll r \<and> domain r"
  by (simp add: validateEmail_def ex_syntax ex_domain ex_disposable ex_mx ex_catchAll
      at_index_def enter_def Let_def signals_of_extend split_beta ex_smtp)

theorem validateEmail_gating_witness:
  "\<exists>r w'. validateEmail ''a@b.co'' \<lparr>randoms = (\<lambda>_. 1 / 2), drawn = 0, entered = []\<rparr> = (Inr r, w')
      \<and> smtp r \<and> mx r \<and> \<not> disposable r \<and> domain r"
proof -
  obtain r w' where run: "validateEmail ''a@b.co'' \<lparr>randoms = (\<lambda>_. 1 / 2), drawn = 0, entered = []\<rparr> = (Inr r, w')"
    and gate: "smtp r \<longrightarrow> mx r \<and> \<not> disposable r" and dom: "mx r \<longrightarrow> domain r"
    using validateEmail_gating [of "''a@b.co''" "\<lparr>randoms = (\<lambda>_. 1 / 2), drawn = 0, entered = []\<rparr>"]
    by blast
  from ex_signals run have "smtp r"
    by auto
  with gate dom run show ?thesis
    by blast
qed

text \<open>
  C5. When the syntax checker returns false, as it does on the empty string, on
  \<open>no-at-sign\<close> and on \<open>@@double.com\<close>, \<open>validateEmail\<close> returns, without throwing, the
  result with all seven signals false, score 0 and status \<open>Invalid\<close>; no random number
  is drawn and no check other than the syntax check is entered.
\<close>

theorem validateEmail_bad_syntax:
  "(\<not> validateEmailSyntax e \<longrightarrow>
      validateEmail e w =
        (Inr \<lparr>syntax' = False, domain = False, mx = False, disposable = False,
              roleBased = False, catchAll = False, smtp = False,
              email = e, score = 0, status = Invalid\<rparr>,
         w\<lparr>entered := entered w @ [ValidateEmailSyntax]\<rparr>))
   \<and> \<not> validateEmailSyntax [] \<and> \<not> validateEmailSyntax ''no-at-sign''
   \<and> \<not> validateEmailSyntax ''@@double.com''"
proof (intro conjI impI)
  assume "\<not> validateEmailSyntax e"
  then show "validateEmail e w =
        (Inr \<lparr>syntax' = False, domain = False, mx = False, disposable = False,
              roleBased = False, catchAll = False, smtp = False,
              email = e, score = 0, status = Invalid\<rparr>,
         w\<lparr>entered := entered w @ [ValidateEmailSyntax]\<rparr>)"
    by (simp add: validateEmail_def enter_def)
next
  show "\<not> validateEmailSyntax []"
    by (simp add: no_at_syntax)
  show "\<not> validateEmailSyntax ''no-at-sign''"
    by (simp add: no_at_syntax)
  show "\<not> validateEmailSyntax ''@@double.com''"
    by (simp add: validateEmailSyntax_def emailSchema_parse_def)
qed

theorem validateEmail_bad_syntax_witness:
  "validateEmail ''@@double.com'' \<lparr>randoms = (\<lambda>_. 0), drawn = 0, entered = []\<rparr> =
     (Inr \<lparr>syntax' = False, domain = False, mx = False, disposable = False,
           roleBased = False, catchAll = False, smtp = False,
           email = ''@@double.com'', score = 0, status = Invalid\<rparr>,
      \<lparr>randoms = (\<lambda>_. 0), drawn = 0, entered = [ValidateEmailSyntax]\<rparr>)"
  using validateEmail_bad_syntax
    [of "''@@double.com''" "\<lparr>randoms = (\<lambda>_. 0), drawn = 0, entered = []\<rparr>"]
  by simp

end
